theory Spec2Isabelle
  imports Complex_Main "HOL-Library.Sublist"
begin

section \<open>ReasoningBank: data model\<close>

text \<open>
  The ReasoningBank class keeps three insertion-ordered JavaScript Maps (trajectories,
  memories, patterns) and a set of event listeners. A Map is modelled as an association
  list in insertion order, because every loop of the class iterates a Map in that order.
  JavaScript numbers and Float32Array elements are modelled as real numbers (rounding is
  not modelled); counters and sizes are natural numbers. \<open>Date.now()\<close> is a parameter
  \<open>now\<close> of every operation that reads the clock, and the identifier that \<open>distill\<close>
  builds from the clock and \<open>Math.random()\<close> is a parameter as well. The timing counters
  (\<open>performance.now()\<close>) are not part of the model.
\<close>

record TrajectoryStep =
  action :: string
  stateAfter :: "real list"
  reward :: real

record TrajectoryVerdict =
  success :: bool
  confidence :: real
  strengths :: "string list"
  weaknesses :: "string list"
  improvements :: "string list"
  relevanceScore :: real

text \<open>Field \<open>trajectoryId\<close> of a DistilledMemory is \<open>memTrajectoryId\<close> here, since a
  Trajectory has a field of the same name.\<close>

record DistilledMemory =
  memoryId :: string
  memTrajectoryId :: string
  strategy :: string
  keyLearnings :: "string list"
  embedding :: "real list"
  quality :: real
  usageCount :: nat
  lastUsed :: real

record Trajectory =
  trajectoryId :: string
  domain :: string
  steps :: "TrajectoryStep list"
  qualityScore :: real
  isComplete :: bool
  startTime :: real
  verdict :: "TrajectoryVerdict option"
  distilledMemory :: "DistilledMemory option"

record ReasoningBankConfig =
  maxTrajectories :: nat
  distillationThreshold :: real
  retrievalK :: int
  mmrLambda :: real
  maxPatternAgeDays :: real
  dedupThreshold :: real
  enableContradictionDetection :: bool

definition DEFAULT_CONFIG :: ReasoningBankConfig where
  "DEFAULT_CONFIG =
     \<lparr> maxTrajectories = 5000, distillationThreshold = 0.6, retrievalK = 3,
       mmrLambda = 0.7, maxPatternAgeDays = 30, dedupThreshold = 0.95,
       enableContradictionDetection = True \<rparr>"

text \<open>A MemoryEntry refers to its Trajectory object; the reference is the trajectory's id.\<close>

record MemoryEntry =
  memory :: DistilledMemory
  entryTrajectory :: string
  entryVerdict :: TrajectoryVerdict
  consolidated :: bool

record StepAnalysis =
  totalSteps :: nat
  avgReward :: real
  positiveRatio :: real
  trajectory :: real

datatype error = CannotJudgeIncomplete | ListenerError string

section \<open>Vector similarity\<close>

definition cosineSimilarity :: "real list \<Rightarrow> real list \<Rightarrow> real" where
  "cosineSimilarity a b =
     (if length a \<noteq> length b then 0
      else let dot = (\<Sum>(x, y) \<leftarrow> zip a b. x * y);
               normA = (\<Sum>x \<leftarrow> a. x * x);
               normB = (\<Sum>y \<leftarrow> b. y * y);
               denom = sqrt normA * sqrt normB
           in if denom > 0 then dot / denom else 0)"

section \<open>Judge\<close>

definition analyzeSteps :: "TrajectoryStep list \<Rightarrow> StepAnalysis" where
  "analyzeSteps ss =
     (let rewardSum = (\<Sum>s \<leftarrow> ss. reward s);
          positiveSteps = length (filter (\<lambda>s. reward s > 0.5) ss)
      in \<lparr> totalSteps = length ss,
           avgReward = (if length ss > 0 then rewardSum / real (length ss) else 0),
           positiveRatio = (if length ss > 0 then real positiveSteps / real (length ss) else 0),
           trajectory = (if length ss > 1 then reward (last ss) - reward (hd ss) else 0) \<rparr>)"

definition identifyStrengths :: "Trajectory \<Rightarrow> StepAnalysis \<Rightarrow> string list" where
  "identifyStrengths t an =
     (if avgReward an > 0.7 then [''High average reward across steps''] else []) @
     (if trajectory an > 0.2 then [''Positive reward trajectory''] else []) @
     (if qualityScore t > 0.8 then [''High overall quality''] else []) @
     (if totalSteps an < 5 \<and> qualityScore t > 0.6 then [''Efficient solution (few steps)''] else [])"

definition identifyWeaknesses :: "Trajectory \<Rightarrow> StepAnalysis \<Rightarrow> string list" where
  "identifyWeaknesses t an =
     (if avgReward an < 0.4 then [''Low average reward''] else []) @
     (if trajectory an < - 0.1 then [''Declining reward trajectory''] else []) @
     (if positiveRatio an < 0.5 then [''Many negative/neutral steps''] else []) @
     (if totalSteps an > 10 \<and> qualityScore t < 0.7
      then [''Long trajectory with mediocre outcome''] else [])"

text \<open>\<open>weakness.includes(s)\<close> is the contiguous-substring test \<open>sublist s weakness\<close>.\<close>

definition generateImprovements :: "string list \<Rightarrow> string list" where
  "generateImprovements ws =
     concat (map (\<lambda>w.
       (if sublist ''Low average reward'' w
        then [''Consider alternative strategies for each step''] else []) @
       (if sublist ''Declining'' w
        then [''Re-evaluate approach when reward decreases''] else []) @
       (if sublist ''negative/neutral'' w
        then [''Focus on steps with clearer positive signals''] else []) @
       (if sublist ''Long trajectory'' w
        then [''Look for shortcuts or more direct approaches''] else [])) ws)"

definition computeRelevanceScore :: "real \<Rightarrow> Trajectory \<Rightarrow> real" where
  "computeRelevanceScore now t =
     (let qualityFactor = qualityScore t;
          ageDays = (now - startTime t) / (1000 * 60 * 60 * 24);
          recencyFactor = exp (- ageDays / 30)
      in qualityFactor * 0.7 + recencyFactor * 0.3)"

definition computeConfidence :: "Trajectory \<Rightarrow> StepAnalysis \<Rightarrow> real" where
  "computeConfidence t an =
     (let stepFactor = min (real (totalSteps an) / 10) 1;
          consistencyFactor = positiveRatio an;
          outcomeFactor = \<bar>qualityScore t - 0.5\<bar> * 2
      in stepFactor * 0.3 + consistencyFactor * 0.4 + outcomeFactor * 0.3)"

text \<open>\<open>judge\<close> throws on an incomplete trajectory; otherwise it returns the verdict and
  writes it into the trajectory object, which is returned updated.\<close>

definition judge ::
  "ReasoningBankConfig \<Rightarrow> real \<Rightarrow> Trajectory \<Rightarrow> error + (TrajectoryVerdict \<times> Trajectory)" where
  "judge cfg now t =
     (if \<not> isComplete t then Inl CannotJudgeIncomplete
      else let stepAnalysis = analyzeSteps (steps t);
               succ = (qualityScore t \<ge> distillationThreshold cfg \<and>
                       positiveRatio stepAnalysis > 0.6);
               strs = identifyStrengths t stepAnalysis;
               weaks = identifyWeaknesses t stepAnalysis;
               imps = generateImprovements weaks;
               rel = computeRelevanceScore now t;
               v = \<lparr> success = succ,
                     confidence = computeConfidence t stepAnalysis,
                     strengths = strs, weaknesses = weaks, improvements = imps,
                     relevanceScore = rel \<rparr>
           in Inr (v, t\<lparr>verdict := Some v\<rparr>))"

text \<open>The trajectory of the end-to-end scenario: three steps with rewards 0.2, 0.8, 0.9 and
  quality 0.75.\<close>

definition scenarioTrajectory :: Trajectory where
  "scenarioTrajectory =
     \<lparr> trajectoryId = ''t1'', domain = ''code'',
       steps = [\<lparr>action = ''a'', stateAfter = [1, 0], reward = 0.2\<rparr>,
                \<lparr>action = ''b'', stateAfter = [0, 1], reward = 0.8\<rparr>,
                \<lparr>action = ''c'', stateAfter = [1, 1], reward = 0.9\<rparr>],
       qualityScore = 0.75, isComplete = True, startTime = 0,
       verdict = None, distilledMemory = None \<rparr>"

section \<open>Insertion-ordered maps and the pairwise loops\<close>

text \<open>
  \<open>Map.set\<close> replaces the value of a key in place or appends a new key at the end;
  \<open>Map.delete\<close> removes the key. An absent key is \<open>None\<close> of \<open>map_of\<close>.
\<close>

fun map_set :: "'k \<Rightarrow> 'v \<Rightarrow> ('k \<times> 'v) list \<Rightarrow> ('k \<times> 'v) list" where
  "map_set k v [] = [(k, v)]"
| "map_set k v ((k', v') # m) = (if k' = k then (k, v) # m else (k', v') # map_set k v m)"

definition map_delete :: "'k \<Rightarrow> ('k \<times> 'v) list \<Rightarrow> ('k \<times> 'v) list" where
  "map_delete k m = filter (\<lambda>e. fst e \<noteq> k) m"

text \<open>The loop nest \<open>for (i = 0; i < n; i++) for (j = i + 1; j < n; j++) body\<close>, which
  deduplication, contradiction detection and pattern merging all run over a snapshot array.\<close>

definition for_pairs :: "nat \<Rightarrow> (nat \<Rightarrow> nat \<Rightarrow> 's \<Rightarrow> 's) \<Rightarrow> 's \<Rightarrow> 's" where
  "for_pairs n body s = fold (\<lambda>i. fold (body i) [Suc i..<n]) [0..<n] s"

section \<open>Patterns, events and the bank\<close>

datatype EvolutionType = Improvement | Merge | Split | Prune

record PatternEvolution =
  timestamp :: real
  evoType :: EvolutionType
  previousQuality :: real
  newQuality :: real
  description :: string

text \<open>Fields \<open>domain\<close>, \<open>embedding\<close>, \<open>strategy\<close> and \<open>usageCount\<close> of a Pattern carry the
  prefix \<open>pat\<close>, since Trajectory and DistilledMemory have fields of these names.\<close>

record Pattern =
  patternId :: string
  name :: string
  patDomain :: string
  patEmbedding :: "real list"
  patStrategy :: string
  successRate :: real
  patUsageCount :: nat
  qualityHistory :: "real list"
  evolutionHistory :: "PatternEvolution list"
  createdAt :: real
  updatedAt :: real

datatype NeuralEvent = MemoryConsolidated nat | PatternEvolved string EvolutionType

text \<open>A listener is a callback that returns or throws; what it throws is an error value.\<close>

type_synonym NeuralEventListener = "NeuralEvent \<Rightarrow> error + unit"

record ReasoningBank =
  trajectories :: "(string \<times> Trajectory) list"
  memories :: "(string \<times> MemoryEntry) list"
  patterns :: "(string \<times> Pattern) list"
  eventListeners :: "NeuralEventListener list"
  retrievalCount :: nat
  distillationCount :: nat

text \<open>\<open>emitEvent\<close> calls each listener inside \<open>try\<close>/\<open>catch\<close>; the handler writes one line to
  \<open>console.error\<close> and the loop goes on. The console lines are threaded through and
  returned. The result type has an error branch, as that of every function that calls
  code which may throw.\<close>

definition error_text :: "error \<Rightarrow> string" where
  "error_text e = (case e of CannotJudgeIncomplete \<Rightarrow> ''Cannot judge incomplete trajectory''
                   | ListenerError s \<Rightarrow> s)"

fun emitEvent :: "NeuralEventListener list \<Rightarrow> NeuralEvent \<Rightarrow> string list \<Rightarrow> error + string list" where
  "emitEvent [] ev console = Inr console"
| "emitEvent (listener # ls) ev console =
     (case listener ev of
        Inr u \<Rightarrow> emitEvent ls ev console
      | Inl e \<Rightarrow> emitEvent ls ev
                 (console @ [''Error in ReasoningBank event listener: '' @ error_text e]))"

section \<open>Distill\<close>

text \<open>\<open>[...new Set(actions)]\<close>: the distinct elements in order of first occurrence.\<close>

definition uniqueOf :: "'a list \<Rightarrow> 'a list" where
  "uniqueOf xs = fold (\<lambda>x acc. if x \<in> set acc then acc else acc @ [x]) xs []"

fun join :: "string \<Rightarrow> string list \<Rightarrow> string" where
  "join sep [] = []"
| "join sep [x] = x"
| "join sep (x # y # ys) = x @ sep @ join sep (y # ys)"

definition extractStrategy :: "Trajectory \<Rightarrow> string" where
  "extractStrategy t =
     (let actions = map action (steps t);
          uniqueActions = uniqueOf actions
      in if length uniqueActions \<le> 3 then ''Apply '' @ join '' -> '' uniqueActions
         else ''Multi-step approach: '' @ join '', '' (take 3 uniqueActions) @ ''...'')"

definition extractKeyLearnings :: "Trajectory \<Rightarrow> TrajectoryVerdict \<Rightarrow> string list" where
  "extractKeyLearnings t v =
     (if success v
      then (''Successful approach for '' @ domain t @ '' domain'') #
           map (\<lambda>s. ''Strength: '' @ s) (take 2 (strengths v))
      else ''Approach needs refinement'' #
           map (\<lambda>s. ''Improvement: '' @ s) (take 2 (improvements v)))"

text \<open>The aggregate embedding reads \<open>step.stateAfter[j]\<close> for every \<open>j\<close> below the dimension
  of the first step. The data model fixes one dimension per trajectory; for a shorter step
  vector the source reads \<open>undefined\<close> (which makes the component NaN), and the model
  reads 0 there.\<close>

definition component :: "real list \<Rightarrow> nat \<Rightarrow> real" where
  "component v j = (if j < length v then v ! j else 0)"

definition computeAggregateEmbedding :: "Trajectory \<Rightarrow> real list" where
  "computeAggregateEmbedding t =
     (if length (steps t) = 0 then replicate 768 0
      else let n = length (steps t);
               dim = length (stateAfter (hd (steps t)));
               weight = (\<lambda>i. real (i + 1) / real n);
               totalWeight = (\<Sum>i \<leftarrow> [0..<n]. weight i)
           in map (\<lambda>j. (\<Sum>i \<leftarrow> [0..<n]. component (stateAfter (steps t ! i)) j * weight i)
                          / totalWeight) [0..<dim])"

text \<open>
  \<open>distill\<close> judges the trajectory when it has no verdict (so it throws what \<open>judge\<close>
  throws), returns \<open>null\<close> (\<open>None\<close>) for an unsuccessful or low-quality trajectory, and
  otherwise stores a new memory under a generated id. The id \<open>mem_<clock>_<random>\<close> is
  the parameter \<open>newId\<close>. The trajectory object is returned as the call leaves it.
\<close>

definition distill ::
  "ReasoningBankConfig \<Rightarrow> real \<Rightarrow> string \<Rightarrow> Trajectory \<Rightarrow> ReasoningBank
     \<Rightarrow> error + (DistilledMemory option \<times> Trajectory \<times> ReasoningBank)" where
  "distill cfg now newId t bank =
     (case (case verdict t of None \<Rightarrow> judge cfg now t | Some v \<Rightarrow> Inr (v, t)) of
        Inl e \<Rightarrow> Inl e
      | Inr (v, t1) \<Rightarrow>
          if \<not> success v \<or> qualityScore t1 < distillationThreshold cfg
          then Inr (None, t1, bank)
          else let mem = \<lparr> memoryId = newId,
                           memTrajectoryId = trajectoryId t1,
                           strategy = extractStrategy t1,
                           keyLearnings = extractKeyLearnings t1 v,
                           embedding = computeAggregateEmbedding t1,
                           quality = qualityScore t1,
                           usageCount = 0,
                           lastUsed = now \<rparr>;
                   entry = \<lparr> memory = mem, entryTrajectory = trajectoryId t1,
                             entryVerdict = v, consolidated = False \<rparr>
               in Inr (Some mem,
                       t1\<lparr>distilledMemory := Some mem\<rparr>,
                       bank\<lparr>memories := map_set (memoryId mem) entry (memories bank),
                            distillationCount := distillationCount bank + 1\<rparr>))"

section \<open>Retrieve\<close>

record RetrievalResult =
  resultMemory :: DistilledMemory
  resultRelevance :: real
  diversityScore :: real
  combinedScore :: "real option"

text \<open>A candidate is a memory entry with its relevance to the query.\<close>

type_synonym candidate = "MemoryEntry \<times> real"

definition computeMaxSimilarity :: "MemoryEntry \<Rightarrow> MemoryEntry list \<Rightarrow> real" where
  "computeMaxSimilarity entry selected =
     fold (\<lambda>sel maxSim. max maxSim (cosineSimilarity (embedding (memory entry))
                                                      (embedding (memory sel)))) selected 0"

definition mmrScore :: "ReasoningBankConfig \<Rightarrow> MemoryEntry list \<Rightarrow> candidate \<Rightarrow> real" where
  "mmrScore cfg selected c =
     (let relevance = snd c;
          maxSimilarity = computeMaxSimilarity (fst c) selected;
          diversity = 1 - maxSimilarity
      in mmrLambda cfg * relevance + (1 - mmrLambda cfg) * diversity)"

text \<open>The scan \<open>for (i = 0; i < candidates.length; i++)\<close> of one round: \<open>i\<close> is the index of
  the head of the remaining candidates, and the pair is \<open>(bestIdx, bestScore)\<close>. The start
  value \<open>-Infinity\<close> of \<open>bestScore\<close> is \<open>None\<close>; every real score is greater.\<close>

fun mmr_scan ::
  "ReasoningBankConfig \<Rightarrow> MemoryEntry list \<Rightarrow> candidate list \<Rightarrow> nat \<Rightarrow> nat \<times> real option
     \<Rightarrow> nat \<times> real option" where
  "mmr_scan cfg selected [] i best = best"
| "mmr_scan cfg selected (c # cs) i best =
     (let score = mmrScore cfg selected c
      in mmr_scan cfg selected cs (Suc i)
           (if (case snd best of None \<Rightarrow> True | Some b \<Rightarrow> score > b)
            then (i, Some score) else best))"

lemma mmr_scan_index:
  "fst best < i + length cs \<Longrightarrow> fst (mmr_scan cfg selected cs i best) < i + length cs"
proof (induction cs arbitrary: i best)
  case Nil
  then show ?case by simp
next
  case (Cons c cs)
  let ?best' = "if (case snd best of None \<Rightarrow> True | Some b \<Rightarrow> mmrScore cfg selected c > b)
                then (i, Some (mmrScore cfg selected c)) else best"
  from Cons.prems have "fst ?best' < Suc i + length cs" by simp
  then have "fst (mmr_scan cfg selected cs (Suc i) ?best') < Suc i + length cs"
    by (rule Cons.IH)
  then show ?case by (simp add: Let_def)
qed

text \<open>\<open>candidates.splice(bestIdx, 1)\<close>.\<close>

definition splice1 :: "nat \<Rightarrow> 'a list \<Rightarrow> 'a list" where
  "splice1 i xs = take i xs @ drop (Suc i) xs"

function mmr_loop ::
  "ReasoningBankConfig \<Rightarrow> int \<Rightarrow> candidate list \<Rightarrow> MemoryEntry list \<Rightarrow> RetrievalResult list
     \<Rightarrow> RetrievalResult list" where
  "mmr_loop cfg retrieveK candidates selected results =
     (if int (length results) < retrieveK \<and> length candidates > 0
      then let best = mmr_scan cfg selected candidates 0 (0, None);
               bestIdx = fst best;
               bestScore = snd best;
               bestC = candidates ! bestIdx;
               selected' = selected @ [fst bestC];
               result = \<lparr> resultMemory = memory (fst bestC),
                          resultRelevance = snd bestC,
                          diversityScore = 1 - computeMaxSimilarity (fst bestC) (butlast selected'),
                          combinedScore = bestScore \<rparr>
           in mmr_loop cfg retrieveK (splice1 bestIdx candidates) selected' (results @ [result])
      else results)"
  by pat_completeness auto
termination
proof (relation "measure (\<lambda>(cfg, k, candidates, selected, results). length candidates)")
  show "wf (measure (\<lambda>(cfg, k, candidates, selected, results). length candidates))" by simp
next
  fix cfg :: ReasoningBankConfig and retrieveK :: int and candidates :: "candidate list"
    and selected :: "MemoryEntry list" and results :: "RetrievalResult list"
    and best bestIdx bestScore bestC selected' result
  assume c: "int (length results) < retrieveK \<and> 0 < length candidates"
    and b: "best = mmr_scan cfg selected candidates 0 (0, None)" and i: "bestIdx = fst best"
  from c have "fst (mmr_scan cfg selected candidates 0 (0, None)) < 0 + length candidates"
    by (intro mmr_scan_index) simp
  with b i have "bestIdx < length candidates" by simp
  then show "((cfg, retrieveK, splice1 bestIdx candidates, selected', results @ [result]),
              (cfg, retrieveK, candidates, selected, results))
             \<in> measure (\<lambda>(cfg, k, candidates, selected, results). length candidates)"
    by (simp add: splice1_def)
qed

declare mmr_loop.simps [simp del]

text \<open>\<open>retrieve(queryEmbedding, k)\<close>: \<open>k\<close> is optional and defaults to \<open>retrievalK\<close>. The sort
  \<open>candidates.sort((a, b) => b.relevance - a.relevance)\<close> is stable and descending: a stable
  sort on the negated relevance.\<close>

definition retrieve ::
  "ReasoningBankConfig \<Rightarrow> real list \<Rightarrow> int option \<Rightarrow> ReasoningBank
     \<Rightarrow> RetrievalResult list \<times> ReasoningBank" where
  "retrieve cfg queryEmbedding k bank =
     (let retrieveK = (case k of Some n \<Rightarrow> n | None \<Rightarrow> retrievalK cfg)
      in if length (memories bank) = 0 then ([], bank)
         else let candidates = map (\<lambda>e. (snd e, cosineSimilarity queryEmbedding
                                                    (embedding (memory (snd e)))))
                                   (memories bank);
                  sorted = sort_key (\<lambda>c. - snd c) candidates
              in (mmr_loop cfg retrieveK sorted [] [],
                  bank\<lparr>retrievalCount := retrievalCount bank + 1\<rparr>))"

section \<open>Consolidate\<close>

record ConsolidationResult =
  removedDuplicates :: nat
  contradictionsDetected :: nat
  prunedPatterns :: nat
  mergedPatterns :: nat

text \<open>Deduplication compares the entries of a snapshot of the map; the state of the loop is
  the map and the counter \<open>removed\<close>.\<close>

definition dedup_step ::
  "ReasoningBankConfig \<Rightarrow> (string \<times> MemoryEntry) list \<Rightarrow> nat \<Rightarrow> nat
     \<Rightarrow> (string \<times> MemoryEntry) list \<times> nat \<Rightarrow> (string \<times> MemoryEntry) list \<times> nat" where
  "dedup_step cfg entries i j st =
     (let sim = cosineSimilarity (embedding (memory (snd (entries ! i))))
                                 (embedding (memory (snd (entries ! j))))
      in if sim > dedupThreshold cfg
         then ((if quality (memory (snd (entries ! i))) \<ge> quality (memory (snd (entries ! j)))
                then map_delete (fst (entries ! j)) (fst st)
                else map_delete (fst (entries ! i)) (fst st)),
               snd st + 1)
         else st)"

definition deduplicateMemories ::
  "ReasoningBankConfig \<Rightarrow> (string \<times> MemoryEntry) list \<Rightarrow> (string \<times> MemoryEntry) list \<times> nat" where
  "deduplicateMemories cfg ms = for_pairs (length ms) (dedup_step cfg ms) (ms, 0)"

text \<open>Contradiction detection works on a snapshot of the entry objects, which the map
  shares: setting \<open>entries[i].consolidated\<close> changes the stored entry. The state of the loop
  is the list of entries as they stand and the counter.\<close>

definition mark_consolidated ::
  "nat \<Rightarrow> (string \<times> MemoryEntry) list \<Rightarrow> (string \<times> MemoryEntry) list" where
  "mark_consolidated i es = es[i := (fst (es ! i), (snd (es ! i))\<lparr>consolidated := True\<rparr>)]"

definition contradiction_step ::
  "nat \<Rightarrow> nat \<Rightarrow> (string \<times> MemoryEntry) list \<times> nat \<Rightarrow> (string \<times> MemoryEntry) list \<times> nat" where
  "contradiction_step i j st =
     (let entries = fst st;
          sim = cosineSimilarity (embedding (memory (snd (entries ! i))))
                                 (embedding (memory (snd (entries ! j))))
      in if sim > 0.8
         then let qualityDiff = \<bar>quality (memory (snd (entries ! i))) -
                                  quality (memory (snd (entries ! j)))\<bar>
              in if qualityDiff > 0.4
                 then ((if quality (memory (snd (entries ! i))) < quality (memory (snd (entries ! j)))
                        then mark_consolidated i entries
                        else mark_consolidated j entries),
                       snd st + 1)
                 else st
         else st)"

definition detectContradictions ::
  "(string \<times> MemoryEntry) list \<Rightarrow> (string \<times> MemoryEntry) list \<times> nat" where
  "detectContradictions ms = for_pairs (length ms) contradiction_step (ms, 0)"

definition pruneOldPatterns ::
  "ReasoningBankConfig \<Rightarrow> real \<Rightarrow> (string \<times> Pattern) list \<Rightarrow> (string \<times> Pattern) list \<times> nat" where
  "pruneOldPatterns cfg now ps =
     (let maxAge = maxPatternAgeDays cfg * 24 * 60 * 60 * 1000
      in fold (\<lambda>e st. let age = now - updatedAt (snd e)
                       in if age > maxAge \<and> patUsageCount (snd e) < 5
                          then (map_delete (fst e) (fst st), snd st + 1) else st)
              ps (ps, 0))"

text \<open>Pattern merging works on a snapshot of the pattern objects as well. Its state is the
  snapshot with the objects as they stand, the ids deleted from the map so far, and the
  counter; a deleted pattern stays in the snapshot and takes part in later comparisons.\<close>

definition merge_step ::
  "real \<Rightarrow> nat \<Rightarrow> nat \<Rightarrow> (string \<times> Pattern) list \<times> string list \<times> nat
     \<Rightarrow> (string \<times> Pattern) list \<times> string list \<times> nat" where
  "merge_step now i j st =
     (let ps = fst st;
          sim = cosineSimilarity (patEmbedding (snd (ps ! i))) (patEmbedding (snd (ps ! j)))
      in if sim > 0.9 \<and> patDomain (snd (ps ! i)) = patDomain (snd (ps ! j))
         then let keepIdx = (if successRate (snd (ps ! i)) \<ge> successRate (snd (ps ! j))
                             then i else j);
                  removeIdx = (if successRate (snd (ps ! i)) < successRate (snd (ps ! j))
                               then i else j);
                  keepId = fst (ps ! keepIdx);
                  keep = snd (ps ! keepIdx);
                  removeId = fst (ps ! removeIdx);
                  remove = snd (ps ! removeIdx);
                  keep' = keep\<lparr> patUsageCount := patUsageCount keep + patUsageCount remove,
                                qualityHistory := qualityHistory keep @ qualityHistory remove,
                                evolutionHistory := evolutionHistory keep @
                                  [\<lparr> timestamp = now, evoType = Merge,
                                     previousQuality = successRate keep,
                                     newQuality = (successRate keep + successRate remove) / 2,
                                     description = ''Merged with pattern '' @ removeId \<rparr>] \<rparr>
              in (ps[keepIdx := (keepId, keep')], removeId # fst (snd st), snd (snd st) + 1)
         else st)"

definition mergePatterns :: "real \<Rightarrow> (string \<times> Pattern) list \<Rightarrow> (string \<times> Pattern) list \<times> nat" where
  "mergePatterns now ps =
     (let final = for_pairs (length ps) (merge_step now) (ps, [], 0)
      in (filter (\<lambda>e. fst e \<notin> set (fst (snd final))) (fst final), snd (snd final)))"

text \<open>\<open>consolidate\<close> returns the counters, the bank as it leaves it and the console lines of
  \<open>emitEvent\<close>; an exception leaving \<open>emitEvent\<close> would leave \<open>consolidate\<close>.\<close>

definition consolidate ::
  "ReasoningBankConfig \<Rightarrow> real \<Rightarrow> ReasoningBank
     \<Rightarrow> error + (ConsolidationResult \<times> ReasoningBank \<times> string list)" where
  "consolidate cfg now bank =
     (let dd = deduplicateMemories cfg (memories bank);
          cd = (if enableContradictionDetection cfg then detectContradictions (fst dd)
                else (fst dd, 0));
          pr = pruneOldPatterns cfg now (patterns bank);
          mg = mergePatterns now (fst pr);
          result = \<lparr> removedDuplicates = snd dd, contradictionsDetected = snd cd,
                     prunedPatterns = snd pr, mergedPatterns = snd mg \<rparr>;
          bank' = bank\<lparr>memories := fst cd, patterns := fst mg\<rparr>
      in case emitEvent (eventListeners bank) (MemoryConsolidated (length (fst cd))) [] of
           Inl e \<Rightarrow> Inl e
         | Inr console \<Rightarrow> Inr (result, bank', console))"

section \<open>Pattern evolution\<close>

definition determineEvolutionType :: "real \<Rightarrow> real \<Rightarrow> EvolutionType" where
  "determineEvolutionType prev current =
     (let delta = current - prev
      in if delta > 0.05 then Improvement
         else if delta < - 0.1 then Prune
         else Improvement)"

text \<open>\<open>evolvePattern\<close> returns at once for an unknown id. The pattern object is changed in
  place, so it keeps its position in the map.\<close>

definition evolvePattern ::
  "real \<Rightarrow> string \<Rightarrow> Trajectory \<Rightarrow> ReasoningBank \<Rightarrow> error + (ReasoningBank \<times> string list)" where
  "evolvePattern now pid newExperience bank =
     (case map_of (patterns bank) pid of
        None \<Rightarrow> Inr (bank, [])
      | Some pattern \<Rightarrow>
          let previous = successRate pattern;
              pushed = qualityHistory pattern @ [qualityScore newExperience];
              history = (if length pushed > 100 then drop (length pushed - 100) pushed else pushed);
              rate = fold (\<lambda>b a. a + b) history 0 / real (length history);
              evolutionType = determineEvolutionType previous rate;
              pattern' = pattern\<lparr> qualityHistory := history, successRate := rate,
                                  patUsageCount := patUsageCount pattern + 1,
                                  updatedAt := now,
                                  evolutionHistory := evolutionHistory pattern @
                                    [\<lparr> timestamp = now, evoType = evolutionType,
                                       previousQuality = previous, newQuality = rate,
                                       description = ''Updated based on trajectory '' @
                                                     trajectoryId newExperience \<rparr>] \<rparr>;
              bank' = bank\<lparr>patterns := map_set pid pattern' (patterns bank)\<rparr>
          in case emitEvent (eventListeners bank) (PatternEvolved pid evolutionType) [] of
               Inl e \<Rightarrow> Inl e
             | Inr console \<Rightarrow> Inr (bank', console))"

section \<open>Trajectory store\<close>

text \<open>\<open>pruneTrajectories\<close> sorts the entries by quality (ascending, stable) and deletes the
  first \<open>toRemove\<close> of them from the map.\<close>

definition pruneTrajectories ::
  "ReasoningBankConfig \<Rightarrow> (string \<times> Trajectory) list \<Rightarrow> (string \<times> Trajectory) list" where
  "pruneTrajectories cfg ts =
     (let entries = sort_key (\<lambda>e. qualityScore (snd e)) ts;
          toRemove = int (length entries) - \<lfloor>real (maxTrajectories cfg) * 0.8\<rfloor>
      in fold (\<lambda>i m. map_delete (fst (entries ! i)) m)
              [0..<min (nat toRemove) (length entries)] ts)"

definition storeTrajectory :: "ReasoningBankConfig \<Rightarrow> Trajectory \<Rightarrow> ReasoningBank \<Rightarrow> ReasoningBank" where
  "storeTrajectory cfg t bank =
     (let ts = map_set (trajectoryId t) t (trajectories bank)
      in bank\<lparr>trajectories := (if length ts > maxTrajectories cfg
                                then pruneTrajectories cfg ts else ts)\<rparr>)"

section \<open>Auxiliary definitions and sample data\<close>

text \<open>The notions in which the properties below are stated, and the concrete banks at
  which they are evaluated. A bank as the constructor leaves it:\<close>

definition emptyBank :: ReasoningBank where
  "emptyBank = \<lparr> trajectories = [], memories = [], patterns = [], eventListeners = [],
                 retrievalCount = 0, distillationCount = 0 \<rparr>"


text \<open>The stored memories whose back-reference is the trajectory id \<open>tid\<close>.\<close>

definition fromTrajectory ::
  "string \<Rightarrow> (string \<times> MemoryEntry) list \<Rightarrow> (string \<times> MemoryEntry) list" where
  "fromTrajectory tid ms = filter (\<lambda>e. memTrajectoryId (memory (snd e)) = tid) ms"

text \<open>The verdict attached to the sample memories.\<close>

definition sampleVerdict :: TrajectoryVerdict where
  "sampleVerdict = \<lparr> success = True, confidence = 1, strengths = [], weaknesses = [],
                     improvements = [], relevanceScore = 1 \<rparr>"

text \<open>A stored memory with the given id, trajectory id, embedding and quality.\<close>

definition sampleEntry :: "string \<Rightarrow> string \<Rightarrow> real list \<Rightarrow> real \<Rightarrow> string \<times> MemoryEntry" where
  "sampleEntry mid tid emb q =
     (mid, \<lparr> memory = \<lparr> memoryId = mid, memTrajectoryId = tid, strategy = ''Apply a'',
                         keyLearnings = [], embedding = emb, quality = q, usageCount = 0,
                         lastUsed = 0 \<rparr>,
             entryTrajectory = tid, entryVerdict = sampleVerdict, consolidated = False \<rparr>)"

text \<open>A pattern as \<open>memoryToPattern\<close> creates it from a memory of quality \<open>q\<close> whose
  trajectory is not in the store: domain \<open>general\<close>, success rate \<open>q\<close>, history \<open>[q]\<close>.\<close>

definition samplePattern :: "string \<Rightarrow> real list \<Rightarrow> real \<Rightarrow> string \<times> Pattern" where
  "samplePattern pid emb q =
     (pid, \<lparr> patternId = pid, name = ''apply_a'', patDomain = ''general'', patEmbedding = emb,
             patStrategy = ''Apply a'', successRate = q, patUsageCount = 0,
             qualityHistory = [q], evolutionHistory = [], createdAt = 0, updatedAt = 0 \<rparr>)"

text \<open>The scenario trajectory under another id and with another quality.\<close>

definition sampleTrajectory :: "string \<Rightarrow> real \<Rightarrow> Trajectory" where
  "sampleTrajectory tid q = scenarioTrajectory\<lparr>trajectoryId := tid, qualityScore := q\<rparr>"

text \<open>The test of deduplication on two entries: their similarity exceeds \<open>dedupThreshold\<close>.\<close>

definition near_duplicate ::
  "ReasoningBankConfig \<Rightarrow> string \<times> MemoryEntry \<Rightarrow> string \<times> MemoryEntry \<Rightarrow> bool" where
  "near_duplicate cfg x y \<longleftrightarrow>
     cosineSimilarity (embedding (memory (snd x))) (embedding (memory (snd y))) > dedupThreshold cfg"

text \<open>The key and the memory of a stored entry, that is, all of it but the verdict, the
  trajectory reference and the \<open>consolidated\<close> flag.\<close>

definition key_memory :: "string \<times> MemoryEntry \<Rightarrow> string \<times> DistilledMemory" where
  "key_memory e = (fst e, memory (snd e))"

text \<open>Two memories with the same embedding: the first run removes one of them.\<close>

definition duplicateBank :: ReasoningBank where
  "duplicateBank =
     emptyBank\<lparr>memories := [sampleEntry ''mA'' ''tA'' [1, 0] 0.9,
                              sampleEntry ''mC'' ''tC'' [1, 0] 0.5]\<rparr>"



text \<open>The plain relevance ordering, in the words of the specification: the memories in
  descending cosine similarity to the query, memories of equal similarity in the order in
  which they were stored (a stable sort).\<close>

definition relevanceOrdering :: "real list \<Rightarrow> DistilledMemory list \<Rightarrow> DistilledMemory list" where
  "relevanceOrdering q ms = sort_key (\<lambda>m. - cosineSimilarity q (embedding m)) ms"

text \<open>Three memories, two of them tied at similarity 1 to the query \<open>[1, 0]\<close>.\<close>

definition tieBank :: ReasoningBank where
  "tieBank =
     emptyBank\<lparr>memories := [sampleEntry ''mB'' ''tB'' [12, 5] 0.3,
                              sampleEntry ''mA'' ''tA'' [1, 0] 0.9,
                              sampleEntry ''mC'' ''tC'' [1, 0] 0.5]\<rparr>"

text \<open>The default configuration with \<open>mmrLambda = 1\<close>.\<close>

definition lambdaOneConfig :: ReasoningBankConfig where
  "lambdaOneConfig = DEFAULT_CONFIG\<lparr>mmrLambda := 1\<rparr>"

text \<open>A trajectory store at its capacity of two trajectories.\<close>

definition fullBank :: ReasoningBank where
  "fullBank = emptyBank\<lparr>trajectories := [(''a'', sampleTrajectory ''a'' 0.1),
                                          (''b'', sampleTrajectory ''b'' 0.2)]\<rparr>"

definition smallConfig :: ReasoningBankConfig where
  "smallConfig = DEFAULT_CONFIG\<lparr>maxTrajectories := 2\<rparr>"

text \<open>The arithmetic mean of a quality history.\<close>

definition mean :: "real list \<Rightarrow> real" where
  "mean xs = sum_list xs / real (length xs)"

text \<open>Two patterns of the same domain and embedding, with success rates 0.8 and 0.4.\<close>

definition patternBank :: ReasoningBank where
  "patternBank = emptyBank\<lparr>patterns := [samplePattern ''pat_m1'' [1, 0] 0.8,
                                           samplePattern ''pat_m2'' [1, 0] 0.4]\<rparr>"

text \<open>The errors thrown by the listeners for an event, in the order of the listeners.\<close>

definition thrown_by :: "NeuralEventListener list \<Rightarrow> NeuralEvent \<Rightarrow> error list" where
  "thrown_by ls ev = concat (map (\<lambda>l. case l ev of Inl e \<Rightarrow> [e] | Inr u \<Rightarrow> []) ls)"

text \<open>The line that the \<open>catch\<close> handler of \<open>emitEvent\<close> writes for an error.\<close>

definition console_line :: "error \<Rightarrow> string" where
  "console_line e = ''Error in ReasoningBank event listener: '' @ error_text e"

text \<open>A bank with one pattern and three listeners, the first and the last of which throw.\<close>

definition throwingBank :: ReasoningBank where
  "throwingBank = emptyBank\<lparr>patterns := [samplePattern ''pat_m1'' [1, 0] 0.8],
                             eventListeners := [\<lambda>ev. Inl (ListenerError ''boom''), \<lambda>ev. Inr (),
                                                \<lambda>ev. Inl (ListenerError ''bang'')]\<rparr>"

section \<open>MemoryGraph: PageRank\<close>

text \<open>
  The class MemoryGraph (\<open>memory-graph.ts\<close>) is not among the sources; only its test file
  is. The graph and \<open>computePageRank\<close> are therefore modelled from the specification.
\<close>

text \<open>Modelled from the spec: the configuration of MemoryGraph (\<open>maxNodes\<close>,
  \<open>pageRankDamping\<close>, \<open>maxIterations\<close> and the convergence threshold of section 4.6); the
  class and its configuration type are missing from the sources.\<close>

record MemoryGraphConfig =
  maxNodes :: nat
  pageRankDamping :: real
  maxIterations :: nat
  convergenceThreshold :: real

text \<open>Modelled from the spec: an edge \<open>(source, target, type, weight)\<close> of section 3; the
  edge type of \<open>memory-graph.ts\<close> is missing from the sources.\<close>

record Edge =
  source :: string
  target :: string
  edgeType :: string
  weight :: real

text \<open>Modelled from the spec: the graph as its node ids in insertion order and its edges;
  the fields of the class MemoryGraph are missing from the sources.\<close>

record MemoryGraph =
  nodes :: "string list"
  edges :: "Edge list"

text \<open>Modelled from the spec: the invariants of section 3 that \<open>addNode\<close> and \<open>addEdge\<close>
  (missing from the sources) maintain: node ids are unique, and an edge exists only between
  two nodes of the graph.\<close>

definition wellFormed :: "MemoryGraph \<Rightarrow> bool" where
  "wellFormed g \<longleftrightarrow>
     distinct (nodes g) \<and>
     (\<forall>e \<in> set (edges g). source e \<in> set (nodes g) \<and> target e \<in> set (nodes g))"

text \<open>Modelled from the spec: the out-degree of a node, the number of edges that leave it;
  \<open>computePageRank\<close> of \<open>memory-graph.ts\<close>, which uses it, is missing from the sources.\<close>

definition outDegree :: "MemoryGraph \<Rightarrow> string \<Rightarrow> nat" where
  "outDegree g v = length (filter (\<lambda>e. source e = v) (edges g))"

text \<open>Modelled from the spec: the rank mass of the dangling nodes (zero out-degree), which
  section 4.6 redistributes uniformly across all nodes; part of the missing
  \<open>computePageRank\<close>.\<close>

definition danglingMass :: "MemoryGraph \<Rightarrow> (string \<Rightarrow> real) \<Rightarrow> real" where
  "danglingMass g r = (\<Sum>v \<leftarrow> nodes g. if outDegree g v = 0 then r v else 0)"

text \<open>Modelled from the spec: one round of the power iteration of the missing
  \<open>computePageRank\<close>: a node receives \<open>(1 - d) / N\<close>, plus \<open>d\<close> times the sum of
  \<open>rank(p) / outDegree(p)\<close> over its predecessors \<open>p\<close> and its uniform share of the
  dangling mass.\<close>

definition pageRankStep :: "MemoryGraphConfig \<Rightarrow> MemoryGraph \<Rightarrow> (string \<Rightarrow> real) \<Rightarrow> string \<Rightarrow> real" where
  "pageRankStep cfg g r v =
     (let d = pageRankDamping cfg; N = real (length (nodes g))
      in (1 - d) / N +
         d * ((\<Sum>e \<leftarrow> filter (\<lambda>e. target e = v) (edges g).
                 r (source e) / real (outDegree g (source e)))
              + danglingMass g r / N))"

text \<open>Modelled from the spec: the total L1 change across all ranks between two rounds of
  the missing \<open>computePageRank\<close>.\<close>

definition l1Change :: "MemoryGraph \<Rightarrow> (string \<Rightarrow> real) \<Rightarrow> (string \<Rightarrow> real) \<Rightarrow> real" where
  "l1Change g r r' = (\<Sum>v \<leftarrow> nodes g. \<bar>r' v - r v\<bar>)"

text \<open>Modelled from the spec: the loop of the missing \<open>computePageRank\<close>, which stops when
  the L1 change falls below the threshold or after \<open>maxIterations\<close> rounds, whichever comes
  first; the first argument of type \<open>nat\<close> counts the rounds that remain.\<close>

fun pageRankIterate ::
  "MemoryGraphConfig \<Rightarrow> MemoryGraph \<Rightarrow> nat \<Rightarrow> (string \<Rightarrow> real) \<Rightarrow> (string \<Rightarrow> real)" where
  "pageRankIterate cfg g 0 r = r"
| "pageRankIterate cfg g (Suc n) r =
     (let r' = pageRankStep cfg g r
      in if l1Change g r r' < convergenceThreshold cfg then r'
         else pageRankIterate cfg g n r')"

text \<open>Modelled from the spec: \<open>computePageRank\<close> of \<open>memory-graph.ts\<close>, missing from the
  sources. An empty graph gives an empty map and no iteration. The specification calls the
  iteration classic and the total rank conserved at 1; the start is the uniform rank
  \<open>1 / N\<close>.\<close>

definition computePageRank :: "MemoryGraphConfig \<Rightarrow> MemoryGraph \<Rightarrow> (string \<times> real) list" where
  "computePageRank cfg g =
     (if nodes g = [] then []
      else let r = pageRankIterate cfg g (maxIterations cfg)
                     (\<lambda>v. 1 / real (length (nodes g)))
           in map (\<lambda>v. (v, r v)) (nodes g))"

text \<open>Modelled from the spec: two graphs of the test scenarios of section 8 (two connected
  nodes, a single node) and a configuration with the default damping 0.85 and 50 rounds.\<close>

definition twoNodeGraph :: MemoryGraph where
  "twoNodeGraph = \<lparr> nodes = [''a'', ''b''],
                     edges = [\<lparr> source = ''a'', target = ''b'', edgeType = ''reference'', weight = 1 \<rparr>] \<rparr>"

definition singleNodeGraph :: MemoryGraph where
  "singleNodeGraph = \<lparr> nodes = [''a''], edges = [] \<rparr>"

definition defaultGraphConfig :: MemoryGraphConfig where
  "defaultGraphConfig = \<lparr> maxNodes = 5000, pageRankDamping = 0.85, maxIterations = 50,
                          convergenceThreshold = 1 / 1000000 \<rparr>"

section \<open>Properties of judge\<close>

text \<open>
  Claim C5. For a complete trajectory, \<open>judge\<close> returns a verdict (it does not throw), and
  the verdict's \<open>success\<close> is true exactly when the quality score reaches the distillation
  threshold and the fraction of steps with reward above 0.5 is strictly greater than 0.6.
  A trajectory without steps has no such fraction and is never successful.
\<close>

theorem judge_success_iff:
  assumes "isComplete t"
  shows "\<exists>v t'. judge cfg now t = Inr (v, t') \<and>
           (success v \<longleftrightarrow>
              qualityScore t \<ge> distillationThreshold cfg \<and> steps t \<noteq> [] \<and>
              real (length (filter (\<lambda>s. reward s > 0.5) (steps t))) / real (length (steps t)) > 0.6)"
  using assms by (auto simp: judge_def analyzeSteps_def Let_def)

text \<open>The scenario of the specification: rewards 0.2, 0.8, 0.9, quality 0.75 and threshold
  0.6 give a successful verdict.\<close>

theorem judge_success_iff_witness:
  "isComplete scenarioTrajectory \<and>
   (\<exists>v t'. judge DEFAULT_CONFIG 0 scenarioTrajectory = Inr (v, t') \<and> success v)"
  using judge_success_iff [of scenarioTrajectory DEFAULT_CONFIG 0]
  by (auto simp: scenarioTrajectory_def DEFAULT_CONFIG_def)

section \<open>Properties of distill\<close>

lemma map_set_fresh: "k \<notin> fst ` set m \<Longrightarrow> map_set k v m = m @ [(k, v)]"
  by (induction m) auto

lemma map_of_map_set: "map_of (map_set k v m) k = Some v"
  by (induction m) auto





text \<open>
  Claim C4, as stated, fails: \<open>distill\<close> has no guard on \<open>trajectory.distilledMemory\<close>. Two
  calls on the same trajectory object, with the two generated ids \<open>m1\<close> and \<open>m2\<close>, leave
  two memories of trajectory \<open>t1\<close> in the store.
\<close>

theorem distill_twice_counterexample:
  "\<exists>m1 t1 b1 m2 t2 b2.
     distill DEFAULT_CONFIG 0 ''m1'' scenarioTrajectory emptyBank = Inr (Some m1, t1, b1) \<and>
     distill DEFAULT_CONFIG 1 ''m2'' t1 b1 = Inr (Some m2, t2, b2) \<and>
     map (\<lambda>e. (fst e, memTrajectoryId (memory (snd e)))) (memories b2) =
       [(''m1'', ''t1''), (''m2'', ''t1'')]"
  by (simp add: distill_def judge_def Let_def scenarioTrajectory_def DEFAULT_CONFIG_def
      emptyBank_def analyzeSteps_def)

text \<open>
  Claim C4, amended. When \<open>distill\<close> has produced a memory from a trajectory, a further call
  on that trajectory object (under the same configuration, at any later time) whose
  generated id is not yet a key of the store produces a memory again: it carries the new id
  and the same trajectory id, the trajectory's \<open>distilledMemory\<close> now refers to it, and the
  store holds one more memory of that trajectory than before.
\<close>

theorem distill_again_adds_memory:
  assumes "distill cfg now newId t bank = Inr (Some m, t1, bank1)"
    and "newId' \<notin> fst ` set (memories bank1)"
  shows "\<exists>m' t2 bank2. distill cfg now' newId' t1 bank1 = Inr (Some m', t2, bank2) \<and>
           memoryId m' = newId' \<and> memTrajectoryId m' = trajectoryId t \<and>
           distilledMemory t2 = Some m' \<and>
           length (fromTrajectory (trajectoryId t) (memories bank2)) =
             Suc (length (fromTrajectory (trajectoryId t) (memories bank1)))"
  using assms
  by (auto simp: distill_def judge_def Let_def map_set_fresh fromTrajectory_def
      split: option.splits if_splits)

theorem distill_again_adds_memory_witness:
  "\<exists>m t1 bank1 m' t2 bank2.
     distill DEFAULT_CONFIG 0 ''m1'' scenarioTrajectory emptyBank = Inr (Some m, t1, bank1) \<and>
     ''m2'' \<notin> fst ` set (memories bank1) \<and>
     distill DEFAULT_CONFIG 1 ''m2'' t1 bank1 = Inr (Some m', t2, bank2) \<and>
     length (fromTrajectory (trajectoryId scenarioTrajectory) (memories bank2)) =
       Suc (length (fromTrajectory (trajectoryId scenarioTrajectory) (memories bank1)))"
proof -
  obtain m t1 bank1 where
    d: "distill DEFAULT_CONFIG 0 ''m1'' scenarioTrajectory emptyBank = Inr (Some m, t1, bank1)"
    and k: "''m2'' \<notin> fst ` set (memories bank1)"
    by (simp add: distill_def judge_def Let_def scenarioTrajectory_def DEFAULT_CONFIG_def
      emptyBank_def analyzeSteps_def)
  from distill_again_adds_memory [OF d k, of 1] d k show ?thesis by blast
qed

section \<open>Similarity of the sample embeddings\<close>

lemma sqrt_169: "sqrt 169 = 13"
  by (rule real_sqrt_unique) simp_all

lemma cos_A_A: "cosineSimilarity [1, 0] [1, 0] = 1"
  by (simp add: cosineSimilarity_def)

lemma cos_A_B: "cosineSimilarity [1, 0] [12, 5] = 12 / 13"
  by (simp add: cosineSimilarity_def sqrt_169)


section \<open>Properties of the pairwise loop\<close>

lemma fold_fixed: "(\<And>x. x \<in> set xs \<Longrightarrow> f x s = s) \<Longrightarrow> fold f xs s = s"
  by (induction xs) auto

lemma for_pairs_fixed:
  assumes "\<And>i j. i < j \<Longrightarrow> j < n \<Longrightarrow> body i j s = s"
  shows "for_pairs n body s = s"
  unfolding for_pairs_def
  by (rule fold_fixed, rule fold_fixed) (use assms in auto)

lemma for_pairs_invariant:
  assumes "P s" and "\<And>i j s. i < j \<Longrightarrow> j < n \<Longrightarrow> P s \<Longrightarrow> P (body i j s)"
  shows "P (for_pairs n body s)"
  unfolding for_pairs_def
proof (rule fold_invariant [where Q = "\<lambda>i. i < n" and P = P])
  show "\<And>x. x \<in> set [0..<n] \<Longrightarrow> x < n" by simp
  show "P s" by fact
  fix i s assume i: "i < n" and s: "P s"
  show "P (fold (body i) [Suc i..<n] s)"
    by (rule fold_invariant [where Q = "\<lambda>j. i < j \<and> j < n" and P = P])
       (use s assms(2) in auto)
qed

lemma upt_split: "a \<le> i \<Longrightarrow> i < n \<Longrightarrow> [a..<n] = [a..<i] @ i # [Suc i..<n]"
  using upt_add_eq_append [of a i "n - i"] by (simp add: upt_conv_Cons)

lemma for_pairs_established:
  assumes est: "\<And>s. Q (body i j s)"
    and pres: "\<And>i' j' s. Q s \<Longrightarrow> Q (body i' j' s)"
    and ij: "i < j" "j < n"
  shows "Q (for_pairs n body s)"
proof -
  have inner: "Q (fold (body i') js s')" if "Q s'" for i' js s'
    using that by (induction js arbitrary: s') (auto intro: pres)
  have outer: "Q (fold (\<lambda>i. fold (body i) [Suc i..<n]) is s')" if "Q s'" for "is" s'
    using that by (induction "is" arbitrary: s') (auto intro: inner)
  from ij have o: "[0..<n] = [0..<i] @ i # [Suc i..<n]"
    by (intro upt_split) auto
  from ij have i: "[Suc i..<n] = [Suc i..<j] @ j # [Suc j..<n]"
    by (intro upt_split) auto
  show ?thesis
    unfolding for_pairs_def
    apply (subst o)
    apply (simp only: fold_append fold_simps o_apply)
    apply (rule outer)
    apply (subst i)
    apply (simp only: fold_append fold_simps o_apply)
    apply (rule inner)
    apply (rule est)
    done
qed

section \<open>Properties of deduplication\<close>

lemma dedup_step_fixed: "\<not> near_duplicate cfg (ms ! i) (ms ! j) \<Longrightarrow> dedup_step cfg ms i j st = st"
  by (simp add: dedup_step_def near_duplicate_def)

lemma dedup_none:
  assumes "sorted_wrt (\<lambda>x y. \<not> near_duplicate cfg x y) ms"
  shows "deduplicateMemories cfg ms = (ms, 0)"
  unfolding deduplicateMemories_def
  by (rule for_pairs_fixed, rule dedup_step_fixed)
     (use assms in \<open>simp add: sorted_wrt_iff_nth_less\<close>)

lemma map_delete_filter:
  "map_delete k (filter (\<lambda>e. fst e \<notin> D) ms) = filter (\<lambda>e. fst e \<notin> insert k D) ms"
  by (auto simp: map_delete_def intro: filter_cong)

lemma dedup_result_filter:
  "\<exists>D. fst (deduplicateMemories cfg ms) = filter (\<lambda>e. fst e \<notin> D) ms"
  unfolding deduplicateMemories_def
proof (rule for_pairs_invariant)
  show "\<exists>D. fst (ms, 0::nat) = filter (\<lambda>e. fst e \<notin> D) ms"
    by (rule exI [of _ "{}"]) simp
next
  fix i j and s :: "(string \<times> MemoryEntry) list \<times> nat"
  assume "\<exists>D. fst s = filter (\<lambda>e. fst e \<notin> D) ms"
  then obtain D where D: "fst s = filter (\<lambda>e. fst e \<notin> D) ms" ..
  have "fst (dedup_step cfg ms i j s) = fst s \<or>
        (\<exists>k. fst (dedup_step cfg ms i j s) = map_delete k (fst s))"
    by (auto simp: dedup_step_def Let_def)
  then show "\<exists>D. fst (dedup_step cfg ms i j s) = filter (\<lambda>e. fst e \<notin> D) ms"
  proof (elim disjE exE)
    assume "fst (dedup_step cfg ms i j s) = fst s"
    with D have "fst (dedup_step cfg ms i j s) = filter (\<lambda>e. fst e \<notin> D) ms" by simp
    then show ?thesis ..
  next
    fix k assume "fst (dedup_step cfg ms i j s) = map_delete k (fst s)"
    with D have "fst (dedup_step cfg ms i j s) = filter (\<lambda>e. fst e \<notin> insert k D) ms"
      by (simp add: map_delete_filter)
    then show ?thesis ..
  qed
qed

lemma keys_map_delete: "fst ` set (map_delete k m) = fst ` set m - {k}"
  by (auto simp: map_delete_def)

lemma dedup_pair:
  assumes "i < j" "j < length ms" "near_duplicate cfg (ms ! i) (ms ! j)"
  shows "fst (ms ! i) \<notin> fst ` set (fst (deduplicateMemories cfg ms)) \<or>
         fst (ms ! j) \<notin> fst ` set (fst (deduplicateMemories cfg ms))"
  unfolding deduplicateMemories_def
proof (rule for_pairs_established [where i = i and j = j])
  fix s :: "(string \<times> MemoryEntry) list \<times> nat"
  show "fst (ms ! i) \<notin> fst ` set (fst (dedup_step cfg ms i j s)) \<or>
        fst (ms ! j) \<notin> fst ` set (fst (dedup_step cfg ms i j s))"
    using assms(3) by (simp add: dedup_step_def near_duplicate_def keys_map_delete)
next
  fix i' j' and s :: "(string \<times> MemoryEntry) list \<times> nat"
  assume "fst (ms ! i) \<notin> fst ` set (fst s) \<or> fst (ms ! j) \<notin> fst ` set (fst s)"
  then show "fst (ms ! i) \<notin> fst ` set (fst (dedup_step cfg ms i' j' s)) \<or>
        fst (ms ! j) \<notin> fst ` set (fst (dedup_step cfg ms i' j' s))"
    by (auto simp: dedup_step_def Let_def keys_map_delete)
qed (use assms in auto)

lemma dedup_clean:
  "sorted_wrt (\<lambda>x y. \<not> near_duplicate cfg x y) (fst (deduplicateMemories cfg ms))"
proof -
  let ?res = "fst (deduplicateMemories cfg ms)"
  let ?K = "fst ` set ?res"
  obtain D where D: "?res = filter (\<lambda>e. fst e \<notin> D) ms"
    using dedup_result_filter by blast
  have "sorted_wrt (\<lambda>x y. near_duplicate cfg x y \<longrightarrow> fst x \<notin> ?K \<or> fst y \<notin> ?K) ms"
    unfolding sorted_wrt_iff_nth_less using dedup_pair by blast
  then have "sorted_wrt (\<lambda>x y. near_duplicate cfg x y \<longrightarrow> fst x \<notin> ?K \<or> fst y \<notin> ?K)
               (filter (\<lambda>e. fst e \<notin> D) ms)"
    by (rule sorted_wrt_filter)
  then have "sorted_wrt (\<lambda>x y. near_duplicate cfg x y \<longrightarrow> fst x \<notin> ?K \<or> fst y \<notin> ?K) ?res"
    using D by simp
  then show ?thesis
    by (rule sorted_wrt_mono_rel [rotated]) auto
qed

lemma map_list_update_same: "f y = f (xs ! i) \<Longrightarrow> map f (xs[i := y]) = map f xs"
  by (cases "i < length xs") (auto simp: list_eq_iff_nth_eq nth_list_update)

lemma detect_keeps_memories:
  "map key_memory (fst (detectContradictions ms)) = map key_memory ms"
  unfolding detectContradictions_def
proof (rule for_pairs_invariant)
  show "map key_memory (fst (ms, 0::nat)) = map key_memory ms" by simp
next
  fix i j and s :: "(string \<times> MemoryEntry) list \<times> nat"
  assume "map key_memory (fst s) = map key_memory ms"
  then show "map key_memory (fst (contradiction_step i j s)) = map key_memory ms"
    by (simp add: contradiction_step_def Let_def mark_consolidated_def map_list_update_same
        key_memory_def)
qed

lemma near_duplicate_key_memory:
  "near_duplicate cfg x y \<longleftrightarrow>
     cosineSimilarity (embedding (snd (key_memory x))) (embedding (snd (key_memory y)))
       > dedupThreshold cfg"
  by (simp add: near_duplicate_def key_memory_def)

lemma clean_transfer:
  assumes "sorted_wrt (\<lambda>x y. \<not> near_duplicate cfg x y) ms"
    and "map key_memory ms' = map key_memory ms"
  shows "sorted_wrt (\<lambda>x y. \<not> near_duplicate cfg x y) ms'"
proof -
  let ?R = "\<lambda>a b. \<not> cosineSimilarity (embedding (snd a)) (embedding (snd b)) > dedupThreshold cfg"
  from assms(1) have "sorted_wrt ?R (map key_memory ms)"
    by (simp add: sorted_wrt_map near_duplicate_key_memory)
  with assms(2) have "sorted_wrt ?R (map key_memory ms')" by simp
  then show ?thesis by (simp add: sorted_wrt_map near_duplicate_key_memory)
qed

lemma emitEvent_returns: "\<exists>console'. emitEvent ls ev console = Inr console'"
  by (induction ls arbitrary: console) (auto split: sum.splits)

lemma consolidate_returns: "\<exists>r bank' console. consolidate cfg now bank = Inr (r, bank', console)"
proof -
  let ?cd = "if enableContradictionDetection cfg
             then detectContradictions (fst (deduplicateMemories cfg (memories bank)))
             else (fst (deduplicateMemories cfg (memories bank)), 0)"
  obtain console where
    "emitEvent (eventListeners bank) (MemoryConsolidated (length (fst ?cd))) [] = Inr console"
    using emitEvent_returns by blast
  then show ?thesis by (simp add: consolidate_def Let_def)
qed

lemma consolidate_memories_clean:
  assumes "consolidate cfg now bank = Inr (r, bank', console)"
  shows "sorted_wrt (\<lambda>x y. \<not> near_duplicate cfg x y) (memories bank')"
proof -
  let ?dd = "deduplicateMemories cfg (memories bank)"
  have c: "sorted_wrt (\<lambda>x y. \<not> near_duplicate cfg x y) (fst ?dd)" by (rule dedup_clean)
  from assms have "memories bank' = (if enableContradictionDetection cfg
      then fst (detectContradictions (fst ?dd)) else fst ?dd)"
    by (auto simp: consolidate_def Let_def split: sum.splits)
  then show ?thesis
    using c clean_transfer [OF c detect_keeps_memories] by simp
qed

text \<open>
  Claim C7. \<open>consolidate\<close> always returns, and when it is run again on the bank that the
  first run left (at any later time, nothing stored in between), the second run reports
  \<open>removedDuplicates = 0\<close>.
\<close>

theorem consolidate_twice_no_duplicates:
  "\<exists>r1 bank1 console1 r2 bank2 console2.
     consolidate cfg now bank = Inr (r1, bank1, console1) \<and>
     consolidate cfg now' bank1 = Inr (r2, bank2, console2) \<and>
     removedDuplicates r2 = 0"
proof -
  obtain r1 bank1 console1 where 1: "consolidate cfg now bank = Inr (r1, bank1, console1)"
    using consolidate_returns by blast
  obtain r2 bank2 console2 where 2: "consolidate cfg now' bank1 = Inr (r2, bank2, console2)"
    using consolidate_returns by blast
  have "deduplicateMemories cfg (memories bank1) = (memories bank1, 0)"
    by (rule dedup_none) (rule consolidate_memories_clean [OF 1])
  with 2 have "removedDuplicates r2 = 0"
    by (auto simp: consolidate_def Let_def split: sum.splits)
  with 1 2 show ?thesis by blast
qed

lemma consolidate_duplicateBank:
  "\<exists>bank' console. consolidate DEFAULT_CONFIG 0 duplicateBank =
     Inr (\<lparr> removedDuplicates = 1, contradictionsDetected = 0, prunedPatterns = 0,
             mergedPatterns = 0 \<rparr>, bank', console)"
  by (simp add: consolidate_def DEFAULT_CONFIG_def duplicateBank_def emptyBank_def
      deduplicateMemories_def detectContradictions_def for_pairs_def dedup_step_def
      contradiction_step_def mark_consolidated_def pruneOldPatterns_def mergePatterns_def
      map_delete_def sampleEntry_def cos_A_A Let_def)

theorem consolidate_twice_no_duplicates_witness:
  "\<exists>r1 bank1 console1 r2 bank2 console2.
     consolidate DEFAULT_CONFIG 0 duplicateBank = Inr (r1, bank1, console1) \<and>
     removedDuplicates r1 = 1 \<and>
     consolidate DEFAULT_CONFIG 1 bank1 = Inr (r2, bank2, console2) \<and>
     removedDuplicates r2 = 0"
  using consolidate_twice_no_duplicates [of DEFAULT_CONFIG 0 duplicateBank 1]
    consolidate_duplicateBank
  by fastforce

section \<open>Contradiction detection and retrieval\<close>

text \<open>The marking half of claim C1 holds for every store: contradiction detection keeps
  every entry, with its key and its memory (lemma \<open>detect_keeps_memories\<close>), and for
  every pair of the snapshot that is similar above 0.8 and differs in quality by more than
  0.4 the entry of lower quality is marked in the result.\<close>

lemma contradiction_step_keeps:
  "map key_memory (fst (contradiction_step i j s)) = map key_memory (fst s)"
  by (simp add: contradiction_step_def Let_def mark_consolidated_def map_list_update_same
      key_memory_def)

lemma mark_consolidated_keeps_flag:
  assumes "consolidated (snd (es ! l))"
  shows "consolidated (snd (mark_consolidated x es ! l))"
proof (cases "x < length es")
  case True
  with assms show ?thesis by (cases "x = l") (simp_all add: mark_consolidated_def)
next
  case False
  then have "length es \<le> x" by simp
  then have "mark_consolidated x es = es"
    unfolding mark_consolidated_def by (rule list_update_beyond)
  with assms show ?thesis by simp
qed

lemma contradiction_step_keeps_flag:
  "consolidated (snd (fst s ! l)) \<Longrightarrow> consolidated (snd (fst (contradiction_step i j s) ! l))"
  by (simp add: contradiction_step_def Let_def mark_consolidated_keeps_flag)

lemma key_memory_nth:
  assumes "map key_memory es = map key_memory ms" and "i < length ms"
  shows "memory (snd (es ! i)) = memory (snd (ms ! i))"
proof -
  from assms have "length es = length ms" by (metis length_map)
  with assms have "key_memory (es ! i) = key_memory (ms ! i)"
    by (metis nth_map)
  then show ?thesis by (simp add: key_memory_def)
qed

lemma detect_marks_lower_quality:
  assumes ij: "i < j" "j < length ms"
    and sim: "cosineSimilarity (embedding (memory (snd (ms ! i))))
                               (embedding (memory (snd (ms ! j)))) > 0.8"
    and diff: "\<bar>quality (memory (snd (ms ! i))) - quality (memory (snd (ms ! j)))\<bar> > 0.4"
  defines "l \<equiv> (if quality (memory (snd (ms ! i))) < quality (memory (snd (ms ! j))) then i else j)"
  shows "consolidated (snd (fst (detectContradictions ms) ! l))"
proof -
  let ?Q = "\<lambda>s :: (string \<times> MemoryEntry) list \<times> nat.
              map key_memory (fst s) = map key_memory ms \<longrightarrow> consolidated (snd (fst s ! l))"
  have "?Q (for_pairs (length ms) contradiction_step (ms, 0))"
  proof (rule for_pairs_established [where i = i and j = j])
    fix s :: "(string \<times> MemoryEntry) list \<times> nat"
    show "?Q (contradiction_step i j s)"
    proof
      assume "map key_memory (fst (contradiction_step i j s)) = map key_memory ms"
      then have km: "map key_memory (fst s) = map key_memory ms"
        by (simp add: contradiction_step_keeps)
      then have len: "length (fst s) = length ms" by (metis length_map)
      from ij have i: "i < length ms" by simp
      have mi: "memory (snd (fst s ! i)) = memory (snd (ms ! i))"
        using km i by (rule key_memory_nth)
      have mj: "memory (snd (fst s ! j)) = memory (snd (ms ! j))"
        using km ij(2) by (rule key_memory_nth)
      have "fst (contradiction_step i j s) = mark_consolidated l (fst s)"
        using sim diff by (simp add: contradiction_step_def Let_def mi mj l_def)
      moreover have "l < length (fst s)" using ij len by (simp add: l_def)
      ultimately show "consolidated (snd (fst (contradiction_step i j s) ! l))"
        by (simp add: mark_consolidated_def)
    qed
  next
    fix i' j' and s :: "(string \<times> MemoryEntry) list \<times> nat"
    assume q: "?Q s"
    show "?Q (contradiction_step i' j' s)"
    proof
      assume "map key_memory (fst (contradiction_step i' j' s)) = map key_memory ms"
      then have "map key_memory (fst s) = map key_memory ms"
        by (simp add: contradiction_step_keeps)
      with q have "consolidated (snd (fst s ! l))" by simp
      then show "consolidated (snd (fst (contradiction_step i' j' s) ! l))"
        by (rule contradiction_step_keeps_flag)
    qed
  qed (use ij in auto)
  then show ?thesis
    using detect_keeps_memories [of ms] by (simp add: detectContradictions_def)
qed




section \<open>Retrieval with \<open>mmrLambda = 1\<close>\<close>

lemma mmrScore_lambda_one: "mmrLambda cfg = 1 \<Longrightarrow> mmrScore cfg selected c = snd c"
  by (simp add: mmrScore_def Let_def)

lemma mmr_scan_keeps:
  assumes "mmrLambda cfg = 1" and "\<forall>c \<in> set cs. snd c \<le> b"
  shows "mmr_scan cfg selected cs i (bi, Some b) = (bi, Some b)"
  using assms(2) by (induction cs arbitrary: i) (simp_all add: mmrScore_lambda_one [OF assms(1)])

lemma mmr_scan_sorted:
  assumes "mmrLambda cfg = 1" and "sorted_wrt (\<lambda>a b. snd a \<ge> snd b) (c # cs)"
  shows "mmr_scan cfg selected (c # cs) 0 (0, None) = (0, Some (snd c))"
  using assms by (simp add: mmrScore_lambda_one mmr_scan_keeps)

lemma mmr_loop_lambda_one:
  assumes "mmrLambda cfg = 1" and "sorted_wrt (\<lambda>a b. snd a \<ge> snd b) cands"
  shows "map resultMemory (mmr_loop cfg k cands selected results) =
           map resultMemory results @
           map (\<lambda>c. memory (fst c)) (take (nat (k - int (length results))) cands)"
  using assms(2)
proof (induction cands arbitrary: selected results)
  case Nil
  show ?case by (subst mmr_loop.simps) simp
next
  case (Cons c cs)
  have scan: "mmr_scan cfg selected (c # cs) 0 (0, None) = (0, Some (snd c))"
    using assms(1) Cons.prems by (rule mmr_scan_sorted)
  from Cons.prems have cs: "sorted_wrt (\<lambda>a b. snd a \<ge> snd b) cs" by simp
  show ?case
  proof (cases "int (length results) < k")
    case True
    then have n: "nat (k - int (length results)) = Suc (nat (k - (1 + int (length results))))"
      by simp
    show ?thesis
      apply (subst mmr_loop.simps)
      apply (simp only: scan Let_def fst_conv snd_conv splice1_def)
      using True apply (simp add: Cons.IH [OF cs] n del: One_nat_def)
      done
  next
    case False
    then show ?thesis by (subst mmr_loop.simps) simp
  qed
qed

lemma insort_key_map_commute:
  "insort_key f (g x) (map g ys) = map g (insort_key (\<lambda>a. f (g a)) x ys)"
  by (induction ys) auto

lemma sort_key_map_commute: "sort_key f (map g xs) = map g (sort_key (\<lambda>a. f (g a)) xs)"
  by (induction xs) (simp_all add: insort_key_map_commute)

lemma sort_key_descending: "sorted_wrt (\<lambda>a b. snd a \<ge> snd b) (sort_key (\<lambda>c. - snd c) (cs :: candidate list))"
proof -
  have "sorted (map (\<lambda>c. - snd c) (sort_key (\<lambda>c. - snd c) cs))" by (rule sorted_sort_key)
  then show ?thesis by (simp add: sorted_wrt_map)
qed

text \<open>
  Claim C8. With \<open>mmrLambda = 1\<close>, for every query and every \<open>k\<close> (given or defaulting to
  \<open>retrievalK\<close>), the memories returned by \<open>retrieve\<close> are, in order, the first \<open>k\<close> of
  the plain relevance ordering of the stored memories.
\<close>

theorem retrieve_lambda_one_is_relevance_order:
  assumes "mmrLambda cfg = 1"
  shows "map resultMemory (fst (retrieve cfg q k bank)) =
           take (nat (case k of Some n \<Rightarrow> n | None \<Rightarrow> retrievalK cfg))
                (relevanceOrdering q (map (\<lambda>e. memory (snd e)) (memories bank)))"
proof (cases "memories bank = []")
  case True
  then show ?thesis by (simp add: retrieve_def relevanceOrdering_def)
next
  case False
  let ?cand = "\<lambda>e. (snd e, cosineSimilarity q (embedding (memory (snd e))))"
  let ?K = "nat (case k of Some n \<Rightarrow> n | None \<Rightarrow> retrievalK cfg)"
  let ?sorted = "sort_key (\<lambda>c. - snd c) (map ?cand (memories bank))"
  have order: "map (\<lambda>c. memory (fst c)) ?sorted =
        relevanceOrdering q (map (\<lambda>e. memory (snd e)) (memories bank))"
    by (simp add: sort_key_map_commute relevanceOrdering_def o_def)
  have "map resultMemory (fst (retrieve cfg q k bank)) = map (\<lambda>c. memory (fst c)) (take ?K ?sorted)"
    using False
    by (simp add: retrieve_def Let_def mmr_loop_lambda_one [OF assms sort_key_descending])
  also have "\<dots> = take ?K (map (\<lambda>c. memory (fst c)) ?sorted)"
    by (rule take_map [symmetric])
  also have "\<dots> = take ?K (relevanceOrdering q (map (\<lambda>e. memory (snd e)) (memories bank)))"
    by (simp only: order)
  finally show ?thesis .
qed

theorem retrieve_lambda_one_is_relevance_order_witness:
  "mmrLambda lambdaOneConfig = 1 \<and>
   map (\<lambda>m. memoryId m) (map resultMemory (fst (retrieve lambdaOneConfig [1, 0] None tieBank))) =
     [''mA'', ''mC'', ''mB'']"
proof -
  have l: "mmrLambda lambdaOneConfig = 1" by (simp add: lambdaOneConfig_def)
  have "map (\<lambda>m. memoryId m)
          (take (nat (case None of Some n \<Rightarrow> n | None \<Rightarrow> retrievalK lambdaOneConfig))
             (relevanceOrdering [1, 0] (map (\<lambda>e. memory (snd e)) (memories tieBank)))) =
        [''mA'', ''mC'', ''mB'']"
    by (simp add: relevanceOrdering_def tieBank_def emptyBank_def sampleEntry_def
        lambdaOneConfig_def DEFAULT_CONFIG_def cos_A_A cos_A_B)
  with retrieve_lambda_one_is_relevance_order [OF l, of "[1, 0]" None tieBank] l
  show ?thesis by simp
qed

section \<open>Properties of the trajectory store\<close>

lemma fold_map_delete:
  "n \<le> length es \<Longrightarrow>
   fold (\<lambda>i m. map_delete (fst (es ! i)) m) [0..<n] m =
     filter (\<lambda>e. fst e \<notin> fst ` set (take n es)) m"
proof (induction n)
  case 0
  show ?case by simp
next
  case (Suc n)
  then have "fold (\<lambda>i m. map_delete (fst (es ! i)) m) [0..<Suc n] m =
             map_delete (fst (es ! n)) (filter (\<lambda>e. fst e \<notin> fst ` set (take n es)) m)"
    by simp
  also have "\<dots> = filter (\<lambda>e. fst e \<notin> fst ` set (take (Suc n) es)) m"
    using Suc.prems by (auto simp: map_delete_def take_Suc_conv_app_nth intro: filter_cong)
  finally show ?case .
qed

lemma sorted_take_drop:
  assumes "sorted_wrt P xs" "x \<in> set (take n xs)" "y \<in> set (drop n xs)"
  shows "P x y"
proof -
  from assms(1) have "sorted_wrt P (take n xs @ drop n xs)" by simp
  with assms(2,3) show ?thesis unfolding sorted_wrt_append by blast
qed

lemma prune_result:
  fixes cfg :: ReasoningBankConfig and ts :: "(string \<times> Trajectory) list"
  assumes d: "distinct (map fst ts)"
  defines "entries \<equiv> sort_key (\<lambda>e. qualityScore (snd e)) ts"
  defines "n \<equiv> min (nat (int (length ts) - \<lfloor>real (maxTrajectories cfg) * 0.8\<rfloor>)) (length ts)"
  shows "pruneTrajectories cfg ts = filter (\<lambda>e. e \<in> set (drop n entries)) ts"
proof -
  have len: "length entries = length ts" by (simp add: entries_def)
  have set: "set entries = set ts" by (simp add: entries_def)
  from d have dts: "distinct ts" by (rule distinct_map [THEN iffD1, THEN conjunct1])
  then have de: "distinct entries" by (simp add: entries_def)
  from d have inj: "inj_on fst (set ts)" by (simp add: distinct_map)
  have "pruneTrajectories cfg ts = filter (\<lambda>e. fst e \<notin> fst ` set (take n entries)) ts"
    unfolding pruneTrajectories_def Let_def entries_def [symmetric]
    using fold_map_delete [of n entries ts] by (simp add: n_def len)
  also have "\<dots> = filter (\<lambda>e. e \<in> set (drop n entries)) ts"
  proof (rule filter_cong [OF refl])
    fix e assume e: "e \<in> set ts"
    have "fst e \<in> fst ` set (take n entries) \<longleftrightarrow> e \<in> set (take n entries)"
    proof
      assume "fst e \<in> fst ` set (take n entries)"
      then obtain e' where e': "e' \<in> set (take n entries)" "fst e' = fst e" by auto
      then have "e' \<in> set ts" using set in_set_takeD by fastforce
      with inj e e'(2) have "e' = e" by (auto dest: inj_onD)
      with e'(1) show "e \<in> set (take n entries)" by simp
    qed auto
    moreover have "e \<in> set (take n entries) \<longleftrightarrow> e \<notin> set (drop n entries)"
    proof -
      have "set (take n entries) \<union> set (drop n entries) = set entries"
        by (metis append_take_drop_id set_append)
      moreover have "set (take n entries) \<inter> set (drop n entries) = {}"
        using de by (metis append_take_drop_id distinct_append)
      ultimately show ?thesis using e set by blast
    qed
    ultimately show "(fst e \<notin> fst ` set (take n entries)) = (e \<in> set (drop n entries))"
      by simp
  qed
  finally show ?thesis .
qed

lemma to_remove_bound:
  "0 \<le> (f::int) \<Longrightarrow> f \<le> int m \<Longrightarrow> min (nat (int (Suc m) - f)) (Suc m) = Suc m - nat f"
  by linarith

text \<open>
  Claim C2, as stated, fails. With \<open>maxTrajectories = 2\<close> and a store that holds the two
  trajectories \<open>a\<close> and \<open>b\<close>, storing the new trajectory \<open>c\<close> does not drop \<open>c\<close>: it is
  inserted, and the pruning that follows removes \<open>a\<close> and \<open>b\<close>.
\<close>

theorem store_at_capacity_counterexample:
  "length (trajectories fullBank) = maxTrajectories smallConfig \<and>
   ''c'' \<notin> fst ` set (trajectories fullBank) \<and>
   map fst (trajectories fullBank) = [''a'', ''b''] \<and>
   map fst (trajectories (storeTrajectory smallConfig (sampleTrajectory ''c'' 0.9) fullBank)) = [''c'']"
  by (simp add: fullBank_def smallConfig_def DEFAULT_CONFIG_def emptyBank_def storeTrajectory_def
      pruneTrajectories_def sampleTrajectory_def scenarioTrajectory_def map_delete_def Let_def
      numeral_2_eq_2)

text \<open>
  Claim C2, amended. When the store holds \<open>maxTrajectories\<close> trajectories (under distinct
  ids, as a Map does) and a trajectory with a new id is stored, the store afterwards holds
  \<open>\<lfloor>0.8 * maxTrajectories\<rfloor>\<close> trajectories, all of them among the old ones and the new
  one, and every trajectory that is no longer stored has a quality no greater than that of
  every trajectory kept.
\<close>

theorem store_at_capacity_prunes:
  assumes d: "distinct (map fst (trajectories bank))"
    and full: "length (trajectories bank) = maxTrajectories cfg"
    and new: "trajectoryId t \<notin> fst ` set (trajectories bank)"
  shows "length (trajectories (storeTrajectory cfg t bank)) = nat \<lfloor>real (maxTrajectories cfg) * 0.8\<rfloor> \<and>
         set (trajectories (storeTrajectory cfg t bank)) \<subseteq>
           insert (trajectoryId t, t) (set (trajectories bank)) \<and>
         (\<forall>kept \<in> set (trajectories (storeTrajectory cfg t bank)).
            \<forall>e \<in> insert (trajectoryId t, t) (set (trajectories bank)).
              e \<notin> set (trajectories (storeTrajectory cfg t bank)) \<longrightarrow>
              qualityScore (snd e) \<le> qualityScore (snd kept))"
proof -
  define ts where "ts = trajectories bank @ [(trajectoryId t, t)]"
  define entries where "entries = sort_key (\<lambda>e. qualityScore (snd e)) ts"
  define n where "n = min (nat (int (length ts) - \<lfloor>real (maxTrajectories cfg) * 0.8\<rfloor>)) (length ts)"
  define kept where "kept = filter (\<lambda>e. e \<in> set (drop n entries)) ts"
  have d': "distinct (map fst ts)" using d new by (simp add: ts_def)
  then have dts: "distinct ts" by (rule distinct_map [THEN iffD1, THEN conjunct1])
  then have de: "distinct entries" by (simp add: entries_def)
  have sts: "set ts = insert (trajectoryId t, t) (set (trajectories bank))" by (simp add: ts_def)
  have se: "set entries = set ts" by (simp add: entries_def)
  have lts: "length ts = Suc (maxTrajectories cfg)" using full by (simp add: ts_def)
  have "storeTrajectory cfg t bank = bank\<lparr>trajectories := pruneTrajectories cfg ts\<rparr>"
    using lts by (simp add: storeTrajectory_def Let_def map_set_fresh [OF new] ts_def)
  then have res: "trajectories (storeTrajectory cfg t bank) = kept"
    using prune_result [OF d', of cfg] by (simp add: kept_def n_def entries_def)
  have len: "length entries = Suc (maxTrajectories cfg)" using lts by (simp add: entries_def)
  have fl: "0 \<le> \<lfloor>real (maxTrajectories cfg) * 0.8\<rfloor>" by simp
  have fu: "\<lfloor>real (maxTrajectories cfg) * 0.8\<rfloor> \<le> int (maxTrajectories cfg)"
    by (simp add: floor_le_iff) 
  have n: "n = Suc (maxTrajectories cfg) - nat \<lfloor>real (maxTrajectories cfg) * 0.8\<rfloor>"
    using to_remove_bound [OF fl fu] lts by (simp add: n_def)
  have setk: "set kept = set (drop n entries)"
    using set_drop_subset [of n entries] se by (auto simp: kept_def)
  have dk: "distinct kept" unfolding kept_def using dts by (rule distinct_filter)
  have dd: "distinct (drop n entries)" using de by (rule distinct_drop)
  have "length kept = card (set kept)"
    by (rule distinct_card [OF dk, symmetric])
  also have "\<dots> = length (drop n entries)"
    unfolding setk by (rule distinct_card [OF dd])
  also have "\<dots> = nat \<lfloor>real (maxTrajectories cfg) * 0.8\<rfloor>"
    using fl fu unfolding length_drop len n by linarith
  finally have 1: "length kept = nat \<lfloor>real (maxTrajectories cfg) * 0.8\<rfloor>" .
  have 2: "set kept \<subseteq> insert (trajectoryId t, t) (set (trajectories bank))"
    unfolding sts [symmetric] kept_def by auto
  have 3: "qualityScore (snd e) \<le> qualityScore (snd k)"
    if k: "k \<in> set kept" and e: "e \<in> insert (trajectoryId t, t) (set (trajectories bank))"
      and ne: "e \<notin> set kept" for k e
  proof -
    from k have kd: "k \<in> set (drop n entries)" unfolding setk .
    from ne have ned: "e \<notin> set (drop n entries)" unfolding setk .
    from e have "e \<in> set entries" unfolding se sts .
    then have "e \<in> set (take n entries) \<or> e \<in> set (drop n entries)"
      by (metis Un_iff append_take_drop_id set_append)
    with ned have et: "e \<in> set (take n entries)" by blast
    have "sorted (map (\<lambda>e. qualityScore (snd e)) entries)"
      unfolding entries_def by (rule sorted_sort_key)
    then have "sorted_wrt (\<lambda>a b. qualityScore (snd a) \<le> qualityScore (snd b)) entries"
      by (simp add: sorted_wrt_map)
    from sorted_take_drop [OF this et kd] show ?thesis .
  qed
  from 1 2 3 show ?thesis unfolding res by blast
qed

theorem store_at_capacity_prunes_witness:
  "distinct (map fst (trajectories fullBank)) \<and>
   length (trajectories fullBank) = maxTrajectories smallConfig \<and>
   trajectoryId (sampleTrajectory ''c'' 0.9) \<notin> fst ` set (trajectories fullBank) \<and>
   length (trajectories (storeTrajectory smallConfig (sampleTrajectory ''c'' 0.9) fullBank)) = 1"
proof -
  have d: "distinct (map fst (trajectories fullBank))"
    by (simp add: fullBank_def emptyBank_def)
  have f: "length (trajectories fullBank) = maxTrajectories smallConfig"
    by (simp add: fullBank_def emptyBank_def smallConfig_def DEFAULT_CONFIG_def)
  have n: "trajectoryId (sampleTrajectory ''c'' 0.9) \<notin> fst ` set (trajectories fullBank)"
    by (simp add: fullBank_def emptyBank_def sampleTrajectory_def)
  have "nat \<lfloor>real (maxTrajectories smallConfig) * 0.8\<rfloor> = 1"
    by (simp add: smallConfig_def DEFAULT_CONFIG_def)
  with store_at_capacity_prunes [OF d f n] d f n show ?thesis by simp
qed

section \<open>Pattern evolution and pattern merging\<close>

lemma fold_add: "fold (\<lambda>b a. a + b) xs (s::real) = s + sum_list xs"
  by (induction xs arbitrary: s) simp_all

text \<open>\<open>evolvePattern\<close> recomputes the success rate from the history it has just updated.\<close>

lemma evolvePattern_keeps_mean:
  assumes "map_of (patterns bank) pid = Some p"
  shows "\<exists>bank' console p'. evolvePattern now pid t bank = Inr (bank', console) \<and>
           map_of (patterns bank') pid = Some p' \<and>
           successRate p' = mean (qualityHistory p')"
proof -
  obtain console where
    "emitEvent (eventListeners bank) (PatternEvolved pid
        (determineEvolutionType (successRate p)
          (let pushed = qualityHistory p @ [qualityScore t];
               history = (if length pushed > 100 then drop (length pushed - 100) pushed else pushed)
           in fold (\<lambda>b a. a + b) history 0 / real (length history)))) [] = Inr console"
    using emitEvent_returns by blast
  then show ?thesis
    using assms by (simp add: evolvePattern_def Let_def map_of_map_set mean_def fold_add)
qed

text \<open>
  Claim C3 at a concrete bank. Two patterns of the same domain and embedding, with success
  rates 0.8 and 0.4, are merged by \<open>consolidate\<close>. The survivor's history becomes
  \<open>[0.8, 0.4]\<close>, whose mean is 0.6, but its success rate stays 0.8: \<open>mergePatterns\<close>
  extends the history and never assigns \<open>successRate\<close>.
\<close>

theorem merge_leaves_successRate_stale:
  "\<exists>r bank' console p.
     consolidate DEFAULT_CONFIG 0 patternBank = Inr (r, bank', console) \<and>
     mergedPatterns r = 1 \<and>
     patterns bank' = [(''pat_m1'', p)] \<and>
     qualityHistory p = [0.8, 0.4] \<and> successRate p = 0.8 \<and> mean (qualityHistory p) = 0.6"
  by (simp add: consolidate_def DEFAULT_CONFIG_def patternBank_def emptyBank_def
      deduplicateMemories_def detectContradictions_def for_pairs_def
      pruneOldPatterns_def mergePatterns_def merge_step_def
      samplePattern_def cos_A_A Let_def mean_def)

section \<open>Listener errors\<close>

lemma emitEvent_console:
  "emitEvent ls ev console = Inr (console @ map console_line (thrown_by ls ev))"
  by (induction ls arbitrary: console) (auto simp: thrown_by_def console_line_def split: sum.splits)

text \<open>
  Claim C10. Whatever the registered listeners do, \<open>consolidate\<close> and \<open>evolvePattern\<close>
  return normally. Every listener is called: the console receives one line for each
  listener that throws, also for those that come after a throwing one. (\<open>evolvePattern\<close>
  emits no event for an unknown pattern id.)
\<close>

theorem listener_errors_are_caught:
  "(\<exists>r bank'. consolidate cfg now bank =
       Inr (r, bank', map console_line
                        (thrown_by (eventListeners bank) (MemoryConsolidated (length (memories bank')))))) \<and>
   (\<exists>bank' console ty. evolvePattern now pid t bank = Inr (bank', console) \<and>
       (if map_of (patterns bank) pid = None then bank' = bank \<and> console = []
        else console = map console_line (thrown_by (eventListeners bank) (PatternEvolved pid ty))))"
  by (auto simp: consolidate_def evolvePattern_def Let_def emitEvent_console split: option.splits)

theorem listener_errors_are_caught_witness:
  "(\<exists>r bank'. consolidate DEFAULT_CONFIG 0 throwingBank =
       Inr (r, bank', [''Error in ReasoningBank event listener: boom'',
                       ''Error in ReasoningBank event listener: bang''])) \<and>
   (\<exists>bank'. evolvePattern 0 ''pat_m1'' scenarioTrajectory throwingBank =
       Inr (bank', [''Error in ReasoningBank event listener: boom'',
                    ''Error in ReasoningBank event listener: bang'']))"
proof -
  have t: "thrown_by (eventListeners throwingBank) ev = [ListenerError ''boom'', ListenerError ''bang'']"
    for ev by (simp add: thrown_by_def throwingBank_def)
  have p: "map_of (patterns throwingBank) ''pat_m1'' \<noteq> None"
    by (simp add: throwingBank_def samplePattern_def)
  from listener_errors_are_caught [of DEFAULT_CONFIG 0 throwingBank "''pat_m1''" scenarioTrajectory]
  show ?thesis unfolding t using p by (simp add: console_line_def error_text_def)
qed

section \<open>Properties of PageRank\<close>

lemma sum_list_indicator:
  "distinct ns \<Longrightarrow> k \<in> set ns \<Longrightarrow> (\<Sum>v \<leftarrow> ns. if k = v then c else 0) = (c::real)"
proof (induction ns)
  case Nil
  then show ?case by simp
next
  case (Cons a ns)
  show ?case
  proof (cases "k = a")
    case True
    with Cons.prems have "k \<notin> set ns" by simp
    then have "(\<Sum>v \<leftarrow> ns. if k = v then c else 0) = 0"
      by (induction ns) auto
    with True show ?thesis by simp
  next
    case False
    with Cons show ?thesis by simp
  qed
qed

lemma sum_list_grouped:
  assumes "distinct ns" and "\<forall>e \<in> set es. key e \<in> set ns"
  shows "(\<Sum>v \<leftarrow> ns. \<Sum>e \<leftarrow> filter (\<lambda>e. key e = v) es. f e) = (\<Sum>e \<leftarrow> es. (f e :: real))"
  using assms(2)
proof (induction es)
  case Nil
  then show ?case by simp
next
  case (Cons e es)
  have "(\<Sum>v \<leftarrow> ns. \<Sum>x \<leftarrow> filter (\<lambda>x. key x = v) (e # es). f x) =
        (\<Sum>v \<leftarrow> ns. (if key e = v then f e else 0) + (\<Sum>x \<leftarrow> filter (\<lambda>x. key x = v) es. f x))"
    by (rule arg_cong [where f = sum_list], rule map_cong) auto
  also have "\<dots> = (\<Sum>v \<leftarrow> ns. if key e = v then f e else 0) +
                   (\<Sum>v \<leftarrow> ns. \<Sum>x \<leftarrow> filter (\<lambda>x. key x = v) es. f x)"
    by (rule sum_list_addf)
  also have "\<dots> = f e + (\<Sum>x \<leftarrow> es. f x)"
    using Cons assms(1) by (simp add: sum_list_indicator)
  finally show ?case by simp
qed

lemma outgoing_sum:
  "(\<Sum>e \<leftarrow> filter (\<lambda>e. source e = u) (edges g). r (source e) / real (outDegree g (source e))) =
     (if outDegree g u = 0 then 0 else r u)"
proof -
  have "(\<Sum>e \<leftarrow> filter (\<lambda>e. source e = u) (edges g). r (source e) / real (outDegree g (source e))) =
        (\<Sum>e \<leftarrow> filter (\<lambda>e. source e = u) (edges g). r u / real (outDegree g u))"
    by (rule arg_cong [where f = sum_list], rule map_cong) auto
  also have "\<dots> = real (outDegree g u) * (r u / real (outDegree g u))"
    by (simp add: sum_list_triv outDegree_def)
  finally show ?thesis by simp
qed

lemma step_conserves:
  assumes "wellFormed g" and "nodes g \<noteq> []"
  shows "(\<Sum>v \<leftarrow> nodes g. pageRankStep cfg g r v) =
           (1 - pageRankDamping cfg) + pageRankDamping cfg * (\<Sum>v \<leftarrow> nodes g. r v)"
proof -
  let ?d = "pageRankDamping cfg" and ?N = "real (length (nodes g))"
  let ?f = "\<lambda>e. r (source e) / real (outDegree g (source e))"
  from assms(2) have N: "?N > 0" by simp
  from assms(1) have dn: "distinct (nodes g)"
    and src: "\<forall>e \<in> set (edges g). source e \<in> set (nodes g)"
    and tgt: "\<forall>e \<in> set (edges g). target e \<in> set (nodes g)"
    by (auto simp: wellFormed_def)
  have incoming: "(\<Sum>v \<leftarrow> nodes g. \<Sum>e \<leftarrow> filter (\<lambda>e. target e = v) (edges g). ?f e) =
                  (\<Sum>e \<leftarrow> edges g. ?f e)"
    using dn tgt by (rule sum_list_grouped)
  have "(\<Sum>e \<leftarrow> edges g. ?f e) =
        (\<Sum>u \<leftarrow> nodes g. \<Sum>e \<leftarrow> filter (\<lambda>e. source e = u) (edges g). ?f e)"
    using dn src by (rule sum_list_grouped [symmetric])
  also have "\<dots> = (\<Sum>u \<leftarrow> nodes g. if outDegree g u = 0 then 0 else r u)"
    by (simp only: outgoing_sum)
  finally have flow: "(\<Sum>e \<leftarrow> edges g. ?f e) =
                      (\<Sum>u \<leftarrow> nodes g. if outDegree g u = 0 then 0 else r u)" .
  have total: "(\<Sum>u \<leftarrow> nodes g. if outDegree g u = 0 then 0 else r u) + danglingMass g r =
               (\<Sum>u \<leftarrow> nodes g. r u)"
    unfolding danglingMass_def sum_list_addf [symmetric]
    by (rule arg_cong [where f = sum_list], rule map_cong) auto
  have "(\<Sum>v \<leftarrow> nodes g. pageRankStep cfg g r v) =
        (\<Sum>v \<leftarrow> nodes g. (1 - ?d) / ?N + ?d * (danglingMass g r / ?N)
                           + ?d * (\<Sum>e \<leftarrow> filter (\<lambda>e. target e = v) (edges g). ?f e))"
    by (simp add: pageRankStep_def Let_def algebra_simps)
  also have "\<dots> = (\<Sum>v \<leftarrow> nodes g. (1 - ?d) / ?N + ?d * (danglingMass g r / ?N)) +
                   (\<Sum>v \<leftarrow> nodes g. ?d * (\<Sum>e \<leftarrow> filter (\<lambda>e. target e = v) (edges g). ?f e))"
    by (rule sum_list_addf)
  also have "(\<Sum>v \<leftarrow> nodes g. (1 - ?d) / ?N + ?d * (danglingMass g r / ?N)) =
             (1 - ?d) + ?d * danglingMass g r"
    using N by (simp add: sum_list_triv field_simps)
  also have "(\<Sum>v \<leftarrow> nodes g. ?d * (\<Sum>e \<leftarrow> filter (\<lambda>e. target e = v) (edges g). ?f e)) =
             ?d * (\<Sum>e \<leftarrow> edges g. ?f e)"
    by (simp only: sum_list_const_mult incoming)
  finally have "(\<Sum>v \<leftarrow> nodes g. pageRankStep cfg g r v) =
                (1 - ?d) + ?d * danglingMass g r + ?d * (\<Sum>e \<leftarrow> edges g. ?f e)" .
  also have "\<dots> = (1 - ?d) +
      ?d * ((\<Sum>u \<leftarrow> nodes g. if outDegree g u = 0 then 0 else r u) + danglingMass g r)"
    unfolding flow by (simp only: distrib_left add.assoc add.commute)
  also have "\<dots> = (1 - ?d) + ?d * (\<Sum>u \<leftarrow> nodes g. r u)"
    by (simp only: total)
  finally show ?thesis .
qed

lemma iterate_conserves:
  assumes "wellFormed g" and "nodes g \<noteq> []" and "(\<Sum>v \<leftarrow> nodes g. r v) = 1"
  shows "(\<Sum>v \<leftarrow> nodes g. pageRankIterate cfg g n r v) = 1"
  using assms(3)
proof (induction n arbitrary: r)
  case 0
  then show ?case by simp
next
  case (Suc n)
  have "(\<Sum>v \<leftarrow> nodes g. pageRankStep cfg g r v) = 1"
    using step_conserves [OF assms(1,2), of cfg r] Suc.prems by simp
  then show ?case using Suc.IH by (simp add: Let_def)
qed

lemma pagerank_sum_exact:
  assumes "wellFormed g" and "nodes g \<noteq> []"
  shows "(\<Sum>p \<leftarrow> computePageRank cfg g. snd p) = 1"
proof -
  from assms(2) have "(\<Sum>v \<leftarrow> nodes g. 1 / real (length (nodes g))) = 1"
    by (simp add: sum_list_triv)
  from iterate_conserves [OF assms this]
  show ?thesis using assms(2) by (simp add: computePageRank_def Let_def o_def)
qed

text \<open>
  Claim C9. For every non-empty graph that satisfies the graph invariants, the ranks that
  \<open>computePageRank\<close> returns sum to 1 within 0.01 (over the reals the sum is exactly 1,
  lemma \<open>pagerank_sum_exact\<close>); for a graph of a single node and no edges the rank of the
  node is 1 within 0.00001.
\<close>

theorem pagerank_conservation:
  assumes "wellFormed g" and "nodes g \<noteq> []"
  shows "\<bar>(\<Sum>p \<leftarrow> computePageRank cfg g. snd p) - 1\<bar> \<le> 1 / 100 \<and>
         (\<forall>v. nodes g = [v] \<and> edges g = [] \<longrightarrow>
              (\<exists>x. computePageRank cfg g = [(v, x)] \<and> \<bar>x - 1\<bar> \<le> 1 / 100000))"
proof -
  have s: "(\<Sum>p \<leftarrow> computePageRank cfg g. snd p) = 1"
    using assms by (rule pagerank_sum_exact)
  have "\<exists>x. computePageRank cfg g = [(v, x)] \<and> \<bar>x - 1\<bar> \<le> 1 / 100000"
    if "nodes g = [v]" for v
  proof -
    from that obtain x where x: "computePageRank cfg g = [(v, x)]"
      by (simp add: computePageRank_def Let_def)
    with s have "x = 1" by simp
    with x show ?thesis by simp
  qed
  with s show ?thesis by simp
qed

theorem pagerank_conservation_witness:
  "wellFormed twoNodeGraph \<and> nodes twoNodeGraph \<noteq> [] \<and>
   \<bar>(\<Sum>p \<leftarrow> computePageRank defaultGraphConfig twoNodeGraph. snd p) - 1\<bar> \<le> 1 / 100 \<and>
   wellFormed singleNodeGraph \<and>
   (\<exists>x. computePageRank defaultGraphConfig singleNodeGraph = [(''a'', x)] \<and> \<bar>x - 1\<bar> \<le> 1 / 100000)"
proof -
  have w2: "wellFormed twoNodeGraph" by (simp add: wellFormed_def twoNodeGraph_def)
  have n2: "nodes twoNodeGraph \<noteq> []" by (simp add: twoNodeGraph_def)
  have w1: "wellFormed singleNodeGraph" by (simp add: wellFormed_def singleNodeGraph_def)
  have n1: "nodes singleNodeGraph \<noteq> []" by (simp add: singleNodeGraph_def)
  have s1: "nodes singleNodeGraph = [''a''] \<and> edges singleNodeGraph = []"
    by (simp add: singleNodeGraph_def)
  from pagerank_conservation [OF w2 n2, of defaultGraphConfig]
       pagerank_conservation [OF w1 n1, of defaultGraphConfig] s1 w1 w2 n2
  show ?thesis by blast
qed

end
